theory Spec2Isabelle
  imports Main
begin

section \<open>Habit Lightly: state model\<close>

text \<open>
  The tracker keeps one JSON-shaped state value. Strings are lists of characters; the
  model covers ASCII text, where a character is the UTF-16 code unit that JavaScript
  sees. The optional fields \<open>archived\<close> and \<open>lastSeen\<close> are options. The field \<open>id\<close> of
  a habit is called \<open>hid\<close> here. The object \<open>days\<close> is a map from date keys to arrays of
  habit ids; two objects with the same keys and values are equal, whatever the order in
  which the keys were inserted.
\<close>

record Habit =
  hid :: string
  name :: string
  color :: string
  createdAt :: string
  archived :: "bool option"

record State =
  userId :: string
  habits :: "Habit list"
  days :: "string \<rightharpoonup> string list"
  lastSeen :: "string option"

subsection \<open>JavaScript sets of strings\<close>

text \<open>
  A \<open>Set\<close> iterates in insertion order and holds every element once: it is modelled by the
  list of its elements in that order. \<open>Set_new arr\<close> is \<open>new Set(arr)\<close>, and spreading
  the set back into an array (\<open>[...current]\<close>) is the list itself.
\<close>

definition Set_has :: "'a list \<Rightarrow> 'a \<Rightarrow> bool" where
  "Set_has current x = (x \<in> set current)"

definition Set_add :: "'a \<Rightarrow> 'a list \<Rightarrow> 'a list" where
  "Set_add x current = (if x \<in> set current then current else current @ [x])"

definition Set_delete :: "'a \<Rightarrow> 'a list \<Rightarrow> 'a list" where
  "Set_delete x current = filter (\<lambda>y. y \<noteq> x) current"

definition Set_new :: "'a list \<Rightarrow> 'a list" where
  "Set_new arr = fold Set_add arr []"

text \<open>\<open>s.days[key] || []\<close>: an array is truthy, so only a missing entry gives \<open>[]\<close>.\<close>

definition dayOrEmpty :: "State \<Rightarrow> string \<Rightarrow> string list" where
  "dayOrEmpty s key = (case days s key of None \<Rightarrow> [] | Some arr \<Rightarrow> arr)"

subsection \<open>State transitions\<close>

text \<open>
  Each transition is the updater handed to \<open>setState\<close>; the state is \<open>null\<close> (here
  \<open>None\<close>) until it has been loaded, and every updater returns \<open>null\<close> unchanged.
  \<open>todayKey\<close> is the value captured by the component.
\<close>

definition deleteHabit :: "string \<Rightarrow> State option \<Rightarrow> State option" where
  "deleteHabit i st =
     (case st of None \<Rightarrow> None
      | Some s \<Rightarrow>
          let nextDays = (\<lambda>k. map_option (filter (\<lambda>h. h \<noteq> i)) (days s k))
          in Some (s\<lparr>habits := filter (\<lambda>h. hid h \<noteq> i) (habits s), days := nextDays\<rparr>))"

definition toggleToday :: "string \<Rightarrow> string \<Rightarrow> State option \<Rightarrow> State option" where
  "toggleToday todayKey habitId st =
     (case st of None \<Rightarrow> None
      | Some s \<Rightarrow>
          let current = Set_new (dayOrEmpty s todayKey);
              current' = (if Set_has current habitId then Set_delete habitId current
                          else Set_add habitId current)
          in Some (s\<lparr>days := (days s)(todayKey \<mapsto> current')\<rparr>))"

definition markDay :: "string \<Rightarrow> string \<Rightarrow> bool \<Rightarrow> State option \<Rightarrow> State option" where
  "markDay habitId dayKey dn st =
     (case st of None \<Rightarrow> None
      | Some s \<Rightarrow>
          let current = Set_new (dayOrEmpty s dayKey);
              current' = (if dn then Set_add habitId current else Set_delete habitId current)
          in Some (s\<lparr>days := (days s)(dayKey \<mapsto> current')\<rparr>))"

text \<open>
  \<open>addHabit\<close> reads the input field \<open>newHabitName\<close> and the selected colour; \<open>uid\<close> and
  \<open>now\<close> are what \<open>uid()\<close> and \<open>new Date().toISOString()\<close> return in this call. On
  ASCII text \<open>trim\<close> strips tab, line feed, vertical tab, form feed, carriage return and
  space, and \<open>toLowerCase\<close> maps the letters \<open>A\<close> to \<open>Z\<close>. Clearing the input field
  afterwards is not part of the state.
\<close>

definition isWhiteSpace :: "char \<Rightarrow> bool" where
  "isWhiteSpace c = (of_char c \<in> {9, 10, 11, 12, 13, 32 :: nat})"

definition trim :: "string \<Rightarrow> string" where
  "trim s = rev (dropWhile isWhiteSpace (rev (dropWhile isWhiteSpace s)))"

definition lowerChar :: "char \<Rightarrow> char" where
  "lowerChar c =
     (case map_of (zip ''ABCDEFGHIJKLMNOPQRSTUVWXYZ'' ''abcdefghijklmnopqrstuvwxyz'') c of
        None \<Rightarrow> c
      | Some l \<Rightarrow> l)"

definition toLowerCase :: "string \<Rightarrow> string" where
  "toLowerCase s = map lowerChar s"

definition addHabit ::
  "string \<Rightarrow> string \<Rightarrow> string \<Rightarrow> string \<Rightarrow> State option \<Rightarrow> State option" where
  "addHabit newHabitName col uid now st =
     (let nm = trim newHabitName in
      if nm = [] then st
      else (case st of None \<Rightarrow> None
            | Some s \<Rightarrow>
                let exists = list_ex (\<lambda>h. toLowerCase (name h) = toLowerCase nm) (habits s);
                    newHabit = \<lparr>hid = uid, name = nm, color = col, createdAt = now,
                                archived = None\<rparr>
                in Some (s\<lparr>habits := (if exists then habits s else habits s @ [newHabit])\<rparr>)))"

text \<open>The set of habit ids recorded for a date key; a key with no entry records none.\<close>

definition completions :: "State \<Rightarrow> string \<Rightarrow> string set" where
  "completions s key = set (dayOrEmpty s key)"

subsection \<open>Dates\<close>

text \<open>
  The code builds a \<open>Date\<close> at local midnight, moves it with \<open>setDate\<close> and reads its
  local year, month and day; hours never matter. A \<open>Date\<close> is therefore modelled by its
  local day number, the number of days since 1 January 1970, and the operations on it
  follow the day arithmetic of the ECMAScript standard (\<open>DaysInYear\<close>, \<open>DayFromYear\<close>,
  \<open>YearFromTime\<close>, \<open>MonthFromTime\<close>, \<open>DateFromTime\<close>, \<open>MakeDay\<close>, \<open>TimeClip\<close>).
  The model assumes a time zone in which every calendar day has a local time, which
  holds unless a zone skips a whole day.

  \<open>YearFromDay\<close> is the largest year whose first day is not after the given day; it is
  computed from an estimate that is off by at most one (lemma \<open>YearFromDay_bounds\<close>).
\<close>

definition DaysInYear :: "int \<Rightarrow> int" where
  "DaysInYear y =
     (if y mod 4 \<noteq> 0 then 365 else if y mod 100 \<noteq> 0 then 366
      else if y mod 400 \<noteq> 0 then 365 else 366)"

definition DayFromYear :: "int \<Rightarrow> int" where
  "DayFromYear y =
     365 * (y - 1970) + (y - 1969) div 4 - (y - 1901) div 100 + (y - 1601) div 400"

definition YearFromDay :: "int \<Rightarrow> int" where
  "YearFromDay day =
     (let y = 1970 + (400 * day) div 146097
      in if day < DayFromYear y then y - 1
         else if DayFromYear (y + 1) \<le> day then y + 1
         else y)"

definition InLeapYear :: "int \<Rightarrow> int" where
  "InLeapYear day = (if DaysInYear (YearFromDay day) = 366 then 1 else 0)"

definition DayWithinYear :: "int \<Rightarrow> int" where
  "DayWithinYear day = day - DayFromYear (YearFromDay day)"

definition MonthFromDay :: "int \<Rightarrow> int" where
  "MonthFromDay day =
     (let d = DayWithinYear day; l = InLeapYear day
      in if d < 31 then 0 else if d < 59 + l then 1 else if d < 90 + l then 2
         else if d < 120 + l then 3 else if d < 151 + l then 4 else if d < 181 + l then 5
         else if d < 212 + l then 6 else if d < 243 + l then 7 else if d < 273 + l then 8
         else if d < 304 + l then 9 else if d < 334 + l then 10 else 11)"

definition DateFromDay :: "int \<Rightarrow> int" where
  "DateFromDay day =
     (let d = DayWithinYear day; l = InLeapYear day; m = MonthFromDay day
      in if m = 0 then d + 1 else if m = 1 then d - 30 else if m = 2 then d - 58 - l
         else if m = 3 then d - 89 - l else if m = 4 then d - 119 - l
         else if m = 5 then d - 150 - l else if m = 6 then d - 180 - l
         else if m = 7 then d - 211 - l else if m = 8 then d - 242 - l
         else if m = 9 then d - 272 - l else if m = 10 then d - 303 - l
         else d - 333 - l)"

text \<open>
  \<open>MakeDay year month date\<close>: months outside \<open>0..11\<close> carry into the year, and the day
  of the month is added to the first day of that month as it is, so that day 0 is the
  last day of the month before.
\<close>

definition monthStart :: "int \<Rightarrow> int \<Rightarrow> int" where
  "monthStart l mn =
     (if mn = 0 then 0 else if mn = 1 then 31 else if mn = 2 then 59 + l
      else if mn = 3 then 90 + l else if mn = 4 then 120 + l else if mn = 5 then 151 + l
      else if mn = 6 then 181 + l else if mn = 7 then 212 + l else if mn = 8 then 243 + l
      else if mn = 9 then 273 + l else if mn = 10 then 304 + l else 334 + l)"

definition MakeDay :: "int \<Rightarrow> int \<Rightarrow> int \<Rightarrow> int" where
  "MakeDay year month date =
     (let ym = year + month div 12; mn = month mod 12;
          l = (if DaysInYear ym = 366 then 1 else 0)
      in DayFromYear ym + monthStart l mn + date - 1)"

text \<open>A time value is valid up to 100,000,000 days from the epoch; beyond, the date is
  invalid (\<open>None\<close>).\<close>

definition TimeClip :: "int \<Rightarrow> int option" where
  "TimeClip day = (if \<bar>day\<bar> \<le> 100000000 then Some day else None)"

text \<open>
  \<open>new Date(y, m, d)\<close> reads a year from 0 to 99 as a year of the twentieth century.
  \<open>dt.setDate(date)\<close> keeps year and month of \<open>dt\<close> and sets the day of the month.
\<close>

definition newDate :: "int \<Rightarrow> int \<Rightarrow> int \<Rightarrow> int option" where
  "newDate y m d =
     (let yr = (if 0 \<le> y \<and> y \<le> 99 then 1900 + y else y)
      in TimeClip (MakeDay yr m d))"

definition setDate :: "int \<Rightarrow> int \<Rightarrow> int option" where
  "setDate dt date = TimeClip (MakeDay (YearFromDay dt) (MonthFromDay dt) date)"

subsection \<open>Date keys\<close>

text \<open>
  \<open>String_int\<close> is the decimal form of an integer, as a template literal and \<open>String\<close>
  print it; \<open>padStart2\<close> is \<open>padStart(2, "0")\<close>. The year is not padded.
\<close>

definition digitChar :: "nat \<Rightarrow> char" where
  "digitChar n = ''0123456789'' ! n"

fun String_nat :: "nat \<Rightarrow> string" where
  "String_nat n =
     (if n < 10 then [digitChar n] else String_nat (n div 10) @ [digitChar (n mod 10)])"

declare String_nat.simps [simp del]

definition String_int :: "int \<Rightarrow> string" where
  "String_int i = (if i < 0 then CHR ''-'' # String_nat (nat (- i)) else String_nat (nat i))"

definition padStart2 :: "string \<Rightarrow> string" where
  "padStart2 s = replicate (2 - length s) CHR ''0'' @ s"

definition toLocalDateKey :: "int \<Rightarrow> string" where
  "toLocalDateKey d =
     (let year = YearFromDay d;
          month = padStart2 (String_int (MonthFromDay d + 1));
          day = padStart2 (String_int (DateFromDay d))
      in String_int year @ ''-'' @ month @ ''-'' @ day)"

text \<open>
  \<open>Number\<close> is modelled on strings of decimal digits, the empty string included
  (\<open>Number("")\<close> is 0). On any other string it is \<open>None\<close>: JavaScript gives \<open>NaN\<close> or
  reads another literal syntax, which the model leaves out. \<open>split\<close> is
  \<open>key.split("-")\<close> for a one-character separator.
\<close>

definition isDigit :: "char \<Rightarrow> bool" where
  "isDigit c = (c \<in> set ''0123456789'')"

definition digitValue :: "char \<Rightarrow> nat" where
  "digitValue c = of_char c - 48"

definition digitsValue :: "string \<Rightarrow> nat" where
  "digitsValue s = foldl (\<lambda>n c. 10 * n + digitValue c) 0 s"

definition Number :: "string \<Rightarrow> int option" where
  "Number s = (if list_all isDigit s then Some (int (digitsValue s)) else None)"

fun split :: "char \<Rightarrow> string \<Rightarrow> string list" where
  "split sep [] = [[]]"
| "split sep (c # cs) =
     (if c = sep then [] # split sep cs
      else (case split sep cs of [] \<Rightarrow> [[c]] | p # ps \<Rightarrow> (c # p) # ps))"

text \<open>
  The array pattern takes the first three parts of the key and ignores the others. The
  result is \<open>None\<close> when a part is outside the modelled fragment of \<open>Number\<close>, when
  there are fewer than three parts, or when a date is invalid; JavaScript returns a key
  made of \<open>NaN\<close> in the last two cases.
\<close>

definition shiftLocalDateKey :: "string \<Rightarrow> int \<Rightarrow> string option" where
  "shiftLocalDateKey key n =
     (case map Number (split CHR ''-'' key) of
        Some y # Some m # Some d # _ \<Rightarrow>
          (case newDate y (m - 1) d of
             None \<Rightarrow> None
           | Some dt \<Rightarrow>
               (case setDate dt (DateFromDay dt + n) of
                  None \<Rightarrow> None
                | Some dt' \<Rightarrow> Some (toLocalDateKey dt')))
      | _ \<Rightarrow> None)"

subsection \<open>Streak\<close>

text \<open>\<open>days[cursor]?.includes(habitId)\<close>: false when the key has no entry.\<close>

definition dayIncludes :: "(string \<rightharpoonup> string list) \<Rightarrow> string \<Rightarrow> string \<Rightarrow> bool" where
  "dayIncludes ds cursor habitId =
     (case ds cursor of None \<Rightarrow> False | Some arr \<Rightarrow> habitId \<in> set arr)"

text \<open>
  The loop of \<open>getStreak\<close> has no bound, so it is a partial function: \<open>None\<close> means
  that the loop does not return, or that the cursor left the modelled fragment of
  \<open>shiftLocalDateKey\<close>.
\<close>

partial_function (option) getStreak_loop ::
  "string \<Rightarrow> (string \<rightharpoonup> string list) \<Rightarrow> nat \<Rightarrow> string \<Rightarrow> nat option" where
  "getStreak_loop habitId ds streak cursor =
     (if dayIncludes ds cursor habitId
      then (case shiftLocalDateKey cursor (- 1) of
              None \<Rightarrow> None
            | Some cursor' \<Rightarrow> getStreak_loop habitId ds (streak + 1) cursor')
      else Some streak)"

definition getStreak :: "string \<Rightarrow> (string \<rightharpoonup> string list) \<Rightarrow> string \<Rightarrow> nat option" where
  "getStreak habitId ds todayKey = getStreak_loop habitId ds 0 todayKey"

definition streakFor :: "string \<Rightarrow> State option \<Rightarrow> string \<Rightarrow> nat option" where
  "streakFor todayKey state habitId =
     (case state of None \<Rightarrow> Some 0 | Some s \<Rightarrow> getStreak habitId (days s) todayKey)"

subsection \<open>Progress\<close>

text \<open>
  \<open>Math.round((done / total) * 100)\<close> is double arithmetic. A positive double is modelled
  by a pair \<open>(m, s)\<close> that stands for \<open>m / 2 ^ s\<close>, with a significand \<open>m\<close> of at most 53
  bits. Division and multiplication round the exact result to 53 significant bits, ties
  to even; neither overflow nor underflow can occur on the values met here, a quotient
  of two array lengths with \<open>done \<le> total\<close> and its product with 100.
\<close>

type_synonym double = "nat \<times> nat"

definition roundHalfEven :: "nat \<Rightarrow> nat \<Rightarrow> nat" where
  "roundHalfEven a b =
     (let q = a div b; r = a mod b
      in if 2 * r < b then q else if b < 2 * r then q + 1 else if even q then q else q + 1)"

text \<open>\<open>normShift a b 0\<close> is the least \<open>s\<close> with \<open>2 ^ 52 \<le> a * 2 ^ s / b\<close>, and
  \<open>sigShift n 0\<close> is the least \<open>r\<close> with \<open>n < 2 ^ (53 + r)\<close>.\<close>

function normShift :: "nat \<Rightarrow> nat \<Rightarrow> nat \<Rightarrow> nat" where
  "normShift a b s = (if a = 0 \<or> 2 ^ 52 * b \<le> a * 2 ^ s then s else normShift a b (s + 1))"
  by pat_completeness auto
termination
proof (relation "measure (\<lambda>(a, b, s). 2 ^ 52 * b - a * 2 ^ s)")
  show "wf (measure (\<lambda>(a, b, s). 2 ^ 52 * b - a * 2 ^ s))" by simp
next
  fix a b s :: nat
  assume "\<not> (a = 0 \<or> 2 ^ 52 * b \<le> a * 2 ^ s)"
  then have "0 < a * 2 ^ s" and "a * 2 ^ s < 2 ^ 52 * b"
    by simp_all
  then have "2 ^ 52 * b - a * 2 ^ (s + 1) < 2 ^ 52 * b - a * 2 ^ s"
    by (intro diff_less_mono2) simp_all
  then show "((a, b, s + 1), (a, b, s)) \<in> measure (\<lambda>(a, b, s). 2 ^ 52 * b - a * 2 ^ s)"
    by simp
qed

declare normShift.simps [simp del]

function sigShift :: "nat \<Rightarrow> nat \<Rightarrow> nat" where
  "sigShift n r = (if n < 2 ^ (53 + r) then r else sigShift n (r + 1))"
  by pat_completeness auto
termination
proof (relation "measure (\<lambda>(n, r). n - r)")
  show "wf (measure (\<lambda>(n, r). n - r))" by simp
next
  fix n r :: nat
  assume "\<not> n < 2 ^ (53 + r)"
  moreover have "r < 2 ^ (53 + r)"
  proof -
    have "53 + r < 2 ^ (53 + r)" by (rule less_exp)
    then show ?thesis by linarith
  qed
  ultimately show "((n, r + 1), (n, r)) \<in> measure (\<lambda>(n, r). n - r)"
    by simp
qed

declare sigShift.simps [simp del]

definition round53 :: "nat \<Rightarrow> nat" where
  "round53 n = (let r = sigShift n 0 in roundHalfEven n (2 ^ r) * 2 ^ r)"

text \<open>\<open>fdiv a b\<close> is the double \<open>a / b\<close> of two integers below \<open>2 ^ 53\<close>, and \<open>fmul x c\<close>
  the double product of \<open>x\<close> with an integer \<open>c\<close>. \<open>Math.round\<close> is
  \<open>\<lfloor>x + 1/2\<rfloor>\<close>, computed exactly.\<close>

definition fdiv :: "nat \<Rightarrow> nat \<Rightarrow> double" where
  "fdiv a b = (let s = normShift a b 0 in (roundHalfEven (a * 2 ^ s) b, s))"

definition fmul :: "double \<Rightarrow> nat \<Rightarrow> double" where
  "fmul x c = (round53 (fst x * c), snd x)"

definition Math_round :: "double \<Rightarrow> nat" where
  "Math_round x = (2 * fst x + 2 ^ snd x) div 2 ^ (snd x + 1)"

text \<open>
  The memoised values of the page. The field \<open>done\<close> of the progress object is called
  \<open>doneCount\<close>. \<open>!h.archived\<close> holds for a missing flag and for \<open>false\<close>.
\<close>

definition activeHabits :: "State option \<Rightarrow> Habit list" where
  "activeHabits state =
     filter (\<lambda>h. archived h \<noteq> Some True) (case state of None \<Rightarrow> [] | Some s \<Rightarrow> habits s)"

definition completedToday :: "string \<Rightarrow> State option \<Rightarrow> string list" where
  "completedToday todayKey state =
     Set_new (case state of None \<Rightarrow> [] | Some s \<Rightarrow> dayOrEmpty s todayKey)"

record Progress =
  total :: nat
  doneCount :: nat
  pct :: nat

definition todayProgress :: "string \<Rightarrow> State option \<Rightarrow> Progress" where
  "todayProgress todayKey state =
     (let ah = activeHabits state;
          tot = length ah;
          dn = length (filter (\<lambda>i. list_ex (\<lambda>h. hid h = i) ah) (completedToday todayKey state));
          p = (if tot = 0 then 0 else Math_round (fmul (fdiv dn tot) 100))
      in \<lparr>total = tot, doneCount = dn, pct = p\<rparr>)"

subsection \<open>Message selector\<close>

text \<open>
  \<open>h << 5\<close> takes \<open>h\<close> to a signed 32-bit integer and shifts it; the subtraction and the
  addition that follow are double arithmetic, exact on integers below \<open>2 ^ 53\<close>, so \<open>h\<close>
  is an unbounded integer between iterations (it stays below \<open>2 ^ 53\<close> for strings of
  fewer than \<open>2 ^ 22\<close> characters, lemma \<open>stableHash_exact\<close>). \<open>h | 0\<close> is \<open>ToInt32\<close>.
\<close>

definition toInt32 :: "int \<Rightarrow> int" where
  "toInt32 x = (x + 2 ^ 31) mod 2 ^ 32 - 2 ^ 31"

definition shl5 :: "int \<Rightarrow> int" where
  "shl5 h = toInt32 (toInt32 h * 2 ^ 5)"

fun stableHash_loop :: "int \<Rightarrow> string \<Rightarrow> int" where
  "stableHash_loop h [] = h"
| "stableHash_loop h (c # cs) = stableHash_loop (shl5 h - h + int (of_char c)) cs"






text \<open>
  The library function \<open>getMessageForUser\<close> is another selector, which the tracker page
  does not call: it picks by the length of the user id from one of two lists, chosen by
  the colour scheme of the browser, here the argument \<open>prefersDark\<close>. Characters outside
  ASCII are written as their UTF-8 bytes.
\<close>

definition LIGHT_MESSAGES :: "string list" where
  "LIGHT_MESSAGES =
     [''Shine like you're solar-powered '' @ [CHR 0xE2, CHR 0x98, CHR 0x80, CHR 0xEF, CHR 0xB8, CHR 0x8F],
      ''Brightness isn'' @ [CHR 0xE2, CHR 0x80, CHR 0x99] @ ''t just a theme '' @
        [CHR 0xE2, CHR 0x80, CHR 0x94] @ '' it's your energy.'',
      ''The path is clear, the light is yours '' @ [CHR 0xE2, CHR 0x80, CHR 0x94] @
        '' walk it boldly.'']"

definition DARK_MESSAGES :: "string list" where
  "DARK_MESSAGES =
     [''Even in the shadows, you radiate purpose.'',
      ''Night mode: activated. So is your ambition.'',
      ''Stars shine brightest when the world is darkest.'']"

definition getMessageForUser :: "bool \<Rightarrow> string \<Rightarrow> string" where
  "getMessageForUser prefersDark uId =
     (let source = (if prefersDark then DARK_MESSAGES else LIGHT_MESSAGES);
          index = length uId mod length source
      in source ! index)"

subsection \<open>First run\<close>

text \<open>
  The state created when nothing is stored. \<open>uid1\<close> and \<open>uid2\<close> are the two values
  \<open>uid()\<close> returns, \<open>now1\<close> and \<open>now2\<close> the two time stamps.
\<close>

definition initial :: "string \<Rightarrow> string \<Rightarrow> string \<Rightarrow> string \<Rightarrow> State" where
  "initial uid1 uid2 now1 now2 =
     \<lparr>userId = uid1,
      habits = [\<lparr>hid = uid2, name = ''Check-in'', color = ''#22c55e'', createdAt = now1,
                 archived = None\<rparr>],
      days = Map.empty,
      lastSeen = Some now2\<rparr>"

text \<open>The state created when the stored text cannot be parsed: no habit at all.\<close>

definition fallback :: "string \<Rightarrow> string \<Rightarrow> State" where
  "fallback uid1 now1 = \<lparr>userId = uid1, habits = [], days = Map.empty, lastSeen = Some now1\<rparr>"

subsection \<open>Well-formed date keys\<close>

text \<open>
  A date key in the sense of the specification: the string \<open>YYYY-MM-DD\<close> of a calendar
  date. \<open>keyShape\<close> is the syntax, \<open>isCalendarDate\<close> says that month and day exist in
  that year, and \<open>isDateKey\<close> adds that the year has four significant digits.
  \<open>keyDay\<close> is the day number the key names.
\<close>

definition DaysInMonth :: "int \<Rightarrow> int \<Rightarrow> int" where
  "DaysInMonth y mn =
     (if mn = 1 then (if DaysInYear y = 366 then 29 else 28)
      else if mn = 3 \<or> mn = 5 \<or> mn = 8 \<or> mn = 10 then 30 else 31)"

definition keyShape :: "string \<Rightarrow> bool" where
  "keyShape key =
     (length key = 10 \<and> key ! 4 = CHR ''-'' \<and> key ! 7 = CHR ''-'' \<and>
      list_all isDigit (take 4 key) \<and> list_all isDigit (take 2 (drop 5 key)) \<and>
      list_all isDigit (drop 8 key))"

definition keyYear :: "string \<Rightarrow> int" where
  "keyYear key = int (digitsValue (take 4 key))"

definition keyMonth :: "string \<Rightarrow> int" where
  "keyMonth key = int (digitsValue (take 2 (drop 5 key)))"

definition keyDate :: "string \<Rightarrow> int" where
  "keyDate key = int (digitsValue (drop 8 key))"

definition isCalendarDate :: "string \<Rightarrow> bool" where
  "isCalendarDate key =
     (1 \<le> keyMonth key \<and> keyMonth key \<le> 12 \<and> 1 \<le> keyDate key \<and>
      keyDate key \<le> DaysInMonth (keyYear key) (keyMonth key - 1))"

definition isDateKey :: "string \<Rightarrow> bool" where
  "isDateKey key = (keyShape key \<and> isCalendarDate key \<and> 1000 \<le> keyYear key)"

definition keyDay :: "string \<Rightarrow> int" where
  "keyDay key = MakeDay (keyYear key) (keyMonth key - 1) (keyDate key)"

subsection \<open>Invariant and sample states\<close>

text \<open>No array of \<open>days\<close> holds a habit id twice.\<close>

definition noDuplicates :: "State \<Rightarrow> bool" where
  "noDuplicates s = (\<forall>k arr. days s k = Some arr \<longrightarrow> distinct arr)"

text \<open>Two small states used to evaluate the transitions on concrete inputs.\<close>

definition demoState :: State where
  "demoState =
     \<lparr>userId = ''u-1'',
      habits = [\<lparr>hid = ''h-1'', name = ''Read'', color = ''#22c55e'',
                 createdAt = ''2024-01-01T08:00:00.000Z'', archived = None\<rparr>],
      days = [''2024-01-05'' \<mapsto> [''h-1'']],
      lastSeen = Some ''2024-01-05T08:00:00.000Z''\<rparr>"

definition orphanState :: State where
  "orphanState =
     \<lparr>userId = ''u-1'', habits = [], days = [''2024-01-05'' \<mapsto> [''ghost'']], lastSeen = None\<rparr>"



section \<open>Sets as lists\<close>

lemma set_Set_add: "set (Set_add x current) = insert x (set current)"
  by (auto simp: Set_add_def)

lemma distinct_Set_add: "distinct current \<Longrightarrow> distinct (Set_add x current)"
  by (simp add: Set_add_def)

lemma set_Set_delete: "set (Set_delete x current) = set current - {x}"
  by (auto simp: Set_delete_def)

lemma distinct_Set_delete: "distinct current \<Longrightarrow> distinct (Set_delete x current)"
  by (simp add: Set_delete_def)

lemma fold_Set_add: "set (fold Set_add arr acc) = set arr \<union> set acc"
  by (induction arr arbitrary: acc) (auto simp: set_Set_add)

lemma distinct_fold_Set_add: "distinct acc \<Longrightarrow> distinct (fold Set_add arr acc)"
  by (induction arr arbitrary: acc) (auto simp: distinct_Set_add)

lemma set_Set_new: "set (Set_new arr) = set arr"
  by (simp add: Set_new_def fold_Set_add)

lemma distinct_Set_new: "distinct (Set_new arr)"
  by (simp add: Set_new_def distinct_fold_Set_add)

section \<open>Habit store\<close>

lemma dayOrEmpty_deleteHabit:
  "deleteHabit i (Some s) = Some s' \<Longrightarrow> dayOrEmpty s' k = filter (\<lambda>h. h \<noteq> i) (dayOrEmpty s k)"
  by (cases "days s k") (auto simp: deleteHabit_def dayOrEmpty_def)

lemma dayOrEmpty_toggleToday:
  "toggleToday d i (Some s) = Some s' \<Longrightarrow>
   dayOrEmpty s' k =
     (if k = d then (if i \<in> set (dayOrEmpty s d) then Set_delete i (Set_new (dayOrEmpty s d))
                     else Set_add i (Set_new (dayOrEmpty s d)))
      else dayOrEmpty s k)"
  by (auto simp: toggleToday_def Let_def dayOrEmpty_def Set_has_def set_Set_new)

lemma dayOrEmpty_markDay:
  "markDay i d b (Some s) = Some s' \<Longrightarrow>
   dayOrEmpty s' k =
     (if k = d then (if b then Set_add i (Set_new (dayOrEmpty s d))
                     else Set_delete i (Set_new (dayOrEmpty s d)))
      else dayOrEmpty s k)"
  by (auto simp: markDay_def Let_def dayOrEmpty_def)

lemma toggleToday_Some: "\<exists>s'. toggleToday d i (Some s) = Some s'"
  by (simp add: toggleToday_def Let_def)

lemma toggleToday_fields:
  "toggleToday d i (Some s) = Some s' \<Longrightarrow>
   userId s' = userId s \<and> habits s' = habits s \<and> lastSeen s' = lastSeen s"
  by (auto simp: toggleToday_def Let_def)

lemma markDay_fields:
  "markDay i d b (Some s) = Some s' \<Longrightarrow>
   userId s' = userId s \<and> habits s' = habits s \<and> lastSeen s' = lastSeen s"
  by (auto simp: markDay_def Let_def)

lemma completions_toggleToday:
  "toggleToday d i (Some s) = Some s' \<Longrightarrow>
   completions s' k =
     (if k = d then (if i \<in> completions s d then completions s d - {i}
                     else insert i (completions s d))
      else completions s k)"
  by (simp add: completions_def dayOrEmpty_toggleToday set_Set_add set_Set_delete set_Set_new)

lemma completions_markDay:
  "markDay i d b (Some s) = Some s' \<Longrightarrow>
   completions s' k =
     (if k = d then (if b then insert i (completions s d) else completions s d - {i})
      else completions s k)"
  by (simp add: completions_def dayOrEmpty_markDay set_Set_add set_Set_delete set_Set_new)

text \<open>
  Claim C2. Toggling the same habit on the same date key twice gives back the original
  state: user id, habits and time stamp are untouched, and every date key records the
  same set of habit ids as before. A day record is the set of ids in the array, and a key
  with no entry records the empty set; this holds for every id, existing or not.
\<close>

theorem toggleToday_twice:
  "\<exists>s'. toggleToday d i (toggleToday d i (Some s)) = Some s' \<and>
        userId s' = userId s \<and> habits s' = habits s \<and> lastSeen s' = lastSeen s \<and>
        (\<forall>k. completions s' k = completions s k)"
proof -
  obtain s1 where s1: "toggleToday d i (Some s) = Some s1"
    using toggleToday_Some by blast
  obtain s2 where s2: "toggleToday d i (Some s1) = Some s2"
    using toggleToday_Some by blast
  have f: "userId s2 = userId s \<and> habits s2 = habits s \<and> lastSeen s2 = lastSeen s"
    using toggleToday_fields [OF s1] toggleToday_fields [OF s2] by simp
  have c: "completions s2 k = completions s k" for k
    by (auto simp: completions_toggleToday [OF s2] completions_toggleToday [OF s1])
  show ?thesis using s1 s2 f c by simp
qed

text \<open>
  The arrays themselves come back only in part. When the date key has an array without
  repetitions that does not hold the id, two toggles restore the state exactly. When the
  key has no entry, they leave an entry with an empty array behind.
\<close>

lemma Set_new_distinct:
  "distinct arr \<Longrightarrow> distinct acc \<Longrightarrow> set arr \<inter> set acc = {} \<Longrightarrow>
   fold Set_add arr acc = acc @ arr"
  by (induction arr arbitrary: acc) (auto simp: Set_add_def)

lemma toggleToday_twice_literal:
  assumes "days s d = Some arr" "distinct arr" "i \<notin> set arr"
  shows "toggleToday d i (toggleToday d i (Some s)) = Some s"
proof -
  have n: "Set_new arr = arr" "Set_new (arr @ [i]) = arr @ [i]"
    using assms Set_new_distinct [of arr "[]"] Set_new_distinct [of "arr @ [i]" "[]"]
    by (auto simp: Set_new_def)
  have u: "(days s)(d \<mapsto> arr) = days s"
    using assms(1) by auto
  have f: "filter (\<lambda>y. y \<noteq> i) arr = arr"
    using assms(3) by (auto simp: filter_id_conv)
  show ?thesis
    using assms
    by (simp add: toggleToday_def Let_def dayOrEmpty_def n Set_has_def Set_add_def
        Set_delete_def u f)
qed

lemma toggleToday_twice_new_entry:
  "\<exists>s'. toggleToday ''2024-01-06'' ''h-1'' (toggleToday ''2024-01-06'' ''h-1'' (Some demoState))
          = Some s' \<and>
        days demoState ''2024-01-06'' = None \<and> days s' ''2024-01-06'' = Some []"
  by (simp add: toggleToday_def Let_def dayOrEmpty_def demoState_def Set_new_def Set_add_def
      Set_has_def Set_delete_def)

lemma deleteHabit_Some: "\<exists>s'. deleteHabit i (Some s) = Some s'"
  by (simp add: deleteHabit_def)

lemma markDay_Some: "\<exists>s'. markDay i d b (Some s) = Some s'"
  by (simp add: markDay_def Let_def)

lemma deleteHabit_fields:
  "deleteHabit i (Some s) = Some s' \<Longrightarrow>
   userId s' = userId s \<and> lastSeen s' = lastSeen s \<and>
   habits s' = filter (\<lambda>h. hid h \<noteq> i) (habits s) \<and>
   days s' k = map_option (filter (\<lambda>h. h \<noteq> i)) (days s k)"
  by (auto simp: deleteHabit_def)

lemma completions_deleteHabit:
  "deleteHabit i (Some s) = Some s' \<Longrightarrow> completions s' k = completions s k - {i}"
  by (auto simp: completions_def dayOrEmpty_deleteHabit)

lemma deleteHabit_unreferenced:
  assumes "i \<notin> hid ` set (habits s)" and "\<forall>k. i \<notin> completions s k"
  shows "deleteHabit i (Some s) = Some s"
proof -
  have h: "filter (\<lambda>h. hid h \<noteq> i) (habits s) = habits s"
    using assms(1) by (auto simp: filter_id_conv)
  have "map_option (filter (\<lambda>h. h \<noteq> i)) (days s k) = days s k" for k
    using assms(2) [rule_format, of k]
    by (cases "days s k") (auto simp: completions_def dayOrEmpty_def filter_id_conv)
  then have d: "(\<lambda>k. map_option (filter (\<lambda>h. h \<noteq> i)) (days s k)) = days s"
    by (simp add: fun_eq_iff)
  show ?thesis by (simp add: deleteHabit_def h d)
qed

text \<open>
  Claim C3, as amended. \<open>deleteHabit\<close> removes every habit with the given id from
  \<open>habits\<close> and, in the same transition, removes the id from the array of every date key,
  so that no day record mentions it afterwards; the other fields are unchanged. When no
  habit has the id and no day record contains it, the state is unchanged. An id that only
  day records mention is still purged from them.
\<close>

theorem deleteHabit_purges:
  "\<exists>s'. deleteHabit i (Some s) = Some s' \<and>
        habits s' = filter (\<lambda>h. hid h \<noteq> i) (habits s) \<and>
        i \<notin> hid ` set (habits s') \<and>
        (\<forall>k. days s' k = map_option (filter (\<lambda>h. h \<noteq> i)) (days s k)) \<and>
        (\<forall>k. completions s' k = completions s k - {i}) \<and>
        userId s' = userId s \<and> lastSeen s' = lastSeen s \<and>
        (i \<notin> hid ` set (habits s) \<and> (\<forall>k. i \<notin> completions s k) \<longrightarrow> s' = s)"
proof -
  obtain s' where s': "deleteHabit i (Some s) = Some s'"
    using deleteHabit_Some by blast
  have a: "i \<notin> hid ` set (habits s')"
    using deleteHabit_fields [OF s'] by auto
  have b: "i \<notin> hid ` set (habits s) \<and> (\<forall>k. i \<notin> completions s k) \<longrightarrow> s' = s"
    using deleteHabit_unreferenced [of i s] s' by auto
  show ?thesis
    using s' a b deleteHabit_fields [OF s'] completions_deleteHabit [OF s'] by blast
qed

lemma demo_no_zz: "''zz'' \<notin> completions demoState k"
  by (simp add: completions_def dayOrEmpty_def demoState_def)

theorem deleteHabit_purges_witness:
  "deleteHabit ''zz'' (Some demoState) = Some demoState \<and>
   (\<exists>s'. deleteHabit ''h-1'' (Some demoState) = Some s' \<and> habits s' = [] \<and>
         completions s' ''2024-01-05'' = {})"
proof -
  have "''zz'' \<notin> hid ` set (habits demoState)" by (simp add: demoState_def)
  then have 1: "deleteHabit ''zz'' (Some demoState) = Some demoState"
    using deleteHabit_purges [of "''zz''" demoState] demo_no_zz by auto
  have 2: "\<exists>s'. deleteHabit ''h-1'' (Some demoState) = Some s' \<and> habits s' = [] \<and>
         completions s' ''2024-01-05'' = {}"
    using deleteHabit_purges [of "''h-1''" demoState]
    by (auto simp: demoState_def completions_def dayOrEmpty_def)
  show ?thesis using 1 2 by simp
qed

theorem deleteHabit_unknown_id_counterexample:
  "''ghost'' \<notin> hid ` set (habits orphanState) \<and>
   deleteHabit ''ghost'' (Some orphanState) \<noteq> Some orphanState"
proof -
  have "days (the (deleteHabit ''ghost'' (Some orphanState))) ''2024-01-05'' = Some []"
    by (simp add: deleteHabit_def orphanState_def)
  moreover have "days orphanState ''2024-01-05'' = Some [''ghost'']"
    by (simp add: orphanState_def)
  ultimately have "deleteHabit ''ghost'' (Some orphanState) \<noteq> Some orphanState"
    by auto
  then show ?thesis by (simp add: orphanState_def)
qed

text \<open>
  Claim C7, as amended. For an id that no habit of the state carries, \<open>toggleToday\<close> and
  \<open>markDay\<close> neither fail nor leave the state alone: they do not look at \<open>habits\<close>.
  \<open>toggleToday\<close> flips the membership of the id in the record of the date key (it inserts
  an absent id), \<open>markDay\<close> sets it to \<open>done\<close>; user id, habits, time stamp and the
  entries of all other date keys are unchanged.
\<close>

theorem unknown_id_is_recorded:
  assumes "i \<notin> hid ` set (habits s)"
  shows "(\<exists>s'. toggleToday d i (Some s) = Some s' \<and>
            userId s' = userId s \<and> habits s' = habits s \<and> lastSeen s' = lastSeen s \<and>
            completions s' d =
              (if i \<in> completions s d then completions s d - {i} else insert i (completions s d)) \<and>
            (\<forall>k. k \<noteq> d \<longrightarrow> days s' k = days s k)) \<and>
         (\<exists>s'. markDay i d b (Some s) = Some s' \<and>
            userId s' = userId s \<and> habits s' = habits s \<and> lastSeen s' = lastSeen s \<and>
            completions s' d =
              (if b then insert i (completions s d) else completions s d - {i}) \<and>
            (\<forall>k. k \<noteq> d \<longrightarrow> days s' k = days s k))"
proof -
  obtain s1 where s1: "toggleToday d i (Some s) = Some s1"
    using toggleToday_Some by blast
  obtain s2 where s2: "markDay i d b (Some s) = Some s2"
    using markDay_Some by blast
  have d1: "\<forall>k. k \<noteq> d \<longrightarrow> days s1 k = days s k"
    using s1 by (auto simp: toggleToday_def Let_def)
  have d2: "\<forall>k. k \<noteq> d \<longrightarrow> days s2 k = days s k"
    using s2 by (auto simp: markDay_def Let_def)
  have c1: "completions s1 d =
      (if i \<in> completions s d then completions s d - {i} else insert i (completions s d))"
    by (simp add: completions_toggleToday [OF s1])
  have c2: "completions s2 d = (if b then insert i (completions s d) else completions s d - {i})"
    by (simp add: completions_markDay [OF s2])
  show ?thesis
    using s1 s2 d1 d2 c1 c2 toggleToday_fields [OF s1] markDay_fields [OF s2] by simp
qed

theorem unknown_id_is_recorded_witness:
  "(\<exists>s'. toggleToday ''2024-01-05'' ''ghost'' (Some demoState) = Some s' \<and>
         completions s' ''2024-01-05'' = {''h-1'', ''ghost''}) \<and>
   (\<exists>s'. markDay ''ghost'' ''2024-01-05'' True (Some demoState) = Some s' \<and>
         completions s' ''2024-01-05'' = {''h-1'', ''ghost''})"
proof -
  have h: "''ghost'' \<notin> hid ` set (habits demoState)" by (simp add: demoState_def)
  have c: "completions demoState ''2024-01-05'' = {''h-1''}"
    by (simp add: completions_def dayOrEmpty_def demoState_def)
  have i: "insert ''ghost'' {''h-1''} = {''h-1'', ''ghost''}" by auto
  note t = unknown_id_is_recorded [OF h, of "''2024-01-05''" True]
  obtain s1 where s1: "toggleToday ''2024-01-05'' ''ghost'' (Some demoState) = Some s1"
      "completions s1 ''2024-01-05'' =
         (if ''ghost'' \<in> completions demoState ''2024-01-05''
          then completions demoState ''2024-01-05'' - {''ghost''}
          else insert ''ghost'' (completions demoState ''2024-01-05''))"
    using t by blast
  obtain s2 where s2: "markDay ''ghost'' ''2024-01-05'' True (Some demoState) = Some s2"
      "completions s2 ''2024-01-05'' =
         (if True then insert ''ghost'' (completions demoState ''2024-01-05'')
          else completions demoState ''2024-01-05'' - {''ghost''})"
    using t by blast
  show ?thesis
    using s1 s2 by (simp add: c i)
qed

theorem unknown_id_counterexample:
  "''ghost'' \<notin> hid ` set (habits demoState) \<and>
   toggleToday ''2024-01-05'' ''ghost'' (Some demoState) \<noteq> Some demoState \<and>
   markDay ''ghost'' ''2024-01-05'' True (Some demoState) \<noteq> Some demoState"
proof -
  have 1: "days (the (toggleToday ''2024-01-05'' ''ghost'' (Some demoState))) ''2024-01-05'' = Some [''h-1'', ''ghost'']"
    by (simp add: toggleToday_def Let_def dayOrEmpty_def demoState_def Set_new_def Set_add_def Set_has_def)
  have 2: "days (the (markDay ''ghost'' ''2024-01-05'' True (Some demoState))) ''2024-01-05'' = Some [''h-1'', ''ghost'']"
    by (simp add: markDay_def Let_def dayOrEmpty_def demoState_def Set_new_def Set_add_def)
  have 3: "days demoState ''2024-01-05'' = Some [''h-1'']"
    by (simp add: demoState_def)
  have a: "toggleToday ''2024-01-05'' ''ghost'' (Some demoState) \<noteq> Some demoState"
    using 1 3 by auto
  have b: "markDay ''ghost'' ''2024-01-05'' True (Some demoState) \<noteq> Some demoState"
    using 2 3 by auto
  show ?thesis using a b by (simp add: demoState_def)
qed






lemma addHabit_Some: "\<exists>s'. addHabit n c u t (Some s) = Some s' \<and> days s' = days s"
  by (simp add: addHabit_def Let_def)



lemma noDuplicates_toggleToday:
  "noDuplicates s \<Longrightarrow> toggleToday d i (Some s) = Some s' \<Longrightarrow> noDuplicates s'"
  by (auto simp: noDuplicates_def toggleToday_def Let_def distinct_Set_new distinct_Set_add
      distinct_Set_delete split: if_splits)

lemma noDuplicates_markDay:
  "noDuplicates s \<Longrightarrow> markDay i d b (Some s) = Some s' \<Longrightarrow> noDuplicates s'"
  by (auto simp: noDuplicates_def markDay_def Let_def distinct_Set_new distinct_Set_add
      distinct_Set_delete split: if_splits)

lemma noDuplicates_deleteHabit:
  "noDuplicates s \<Longrightarrow> deleteHabit i (Some s) = Some s' \<Longrightarrow> noDuplicates s'"
  by (auto simp: noDuplicates_def deleteHabit_def)

lemma noDuplicates_addHabit:
  "noDuplicates s \<Longrightarrow> addHabit n c u t (Some s) = Some s' \<Longrightarrow> noDuplicates s'"
  using addHabit_Some [of n c u t s] by (auto simp: noDuplicates_def)

text \<open>
  Claim C10. If no array of \<open>days\<close> holds an id twice, the same is true after
  \<open>addHabit\<close>, \<open>deleteHabit\<close>, \<open>toggleToday\<close> and \<open>markDay\<close>, each of which yields
  a state.
\<close>

theorem operations_preserve_noDuplicates:
  assumes "noDuplicates s"
  shows "(\<exists>s'. addHabit n c u t (Some s) = Some s' \<and> noDuplicates s') \<and>
         (\<exists>s'. deleteHabit i (Some s) = Some s' \<and> noDuplicates s') \<and>
         (\<exists>s'. toggleToday d i (Some s) = Some s' \<and> noDuplicates s') \<and>
         (\<exists>s'. markDay i d b (Some s) = Some s' \<and> noDuplicates s')"
proof -
  have 1: "\<exists>s'. addHabit n c u t (Some s) = Some s' \<and> noDuplicates s'"
    using addHabit_Some [of n c u t s] noDuplicates_addHabit [OF assms] by blast
  have 2: "\<exists>s'. deleteHabit i (Some s) = Some s' \<and> noDuplicates s'"
    using deleteHabit_Some [of i s] noDuplicates_deleteHabit [OF assms] by blast
  have 3: "\<exists>s'. toggleToday d i (Some s) = Some s' \<and> noDuplicates s'"
    using toggleToday_Some [of d i s] noDuplicates_toggleToday [OF assms] by blast
  have 4: "\<exists>s'. markDay i d b (Some s) = Some s' \<and> noDuplicates s'"
    using markDay_Some [of i d b s] noDuplicates_markDay [OF assms] by blast
  show ?thesis using 1 2 3 4 by simp
qed

theorem operations_preserve_noDuplicates_witness:
  "noDuplicates demoState \<and>
   (\<exists>s'. toggleToday ''2024-01-05'' ''h-1'' (Some demoState) = Some s' \<and> noDuplicates s') \<and>
   (\<exists>s'. markDay ''h-1'' ''2024-01-05'' True (Some demoState) = Some s' \<and> noDuplicates s') \<and>
   (\<exists>s'. deleteHabit ''h-1'' (Some demoState) = Some s' \<and> noDuplicates s')"
proof -
  have d: "noDuplicates demoState"
    by (simp add: noDuplicates_def demoState_def)
  show ?thesis
    using d operations_preserve_noDuplicates [OF d, of _ _ _ _ "''h-1''" "''2024-01-05''" True]
    by blast
qed

section \<open>Message selector\<close>

lemma toInt32_range: "- (2 ^ 31) \<le> toInt32 x \<and> toInt32 x < 2 ^ 31"
  using pos_mod_bound [of "2 ^ 32" "x + 2 ^ 31"] pos_mod_sign [of "2 ^ 32" "x + 2 ^ 31"]
  by (simp add: toInt32_def)

lemma hash_step_bound:
  fixes a h c :: int
  assumes "- (2 ^ 31) \<le> a \<and> a < 2 ^ 31" and "0 \<le> c" and "c \<le> 255"
  shows "\<bar>a - h + c\<bar> \<le> \<bar>h\<bar> + (2 ^ 31 + 255)"
  using assms by (cases "0 \<le> h"; cases "0 \<le> a - h + c"; simp)

lemma stableHash_loop_bound:
  "\<bar>stableHash_loop h s\<bar> \<le> \<bar>h\<bar> + int (length s) * (2 ^ 31 + 255)"
proof (induction s arbitrary: h)
  case Nil
  then show ?case by simp
next
  case (Cons c cs)
  have "of_char c < (256::nat)"
    by simp
  then have c: "int (of_char c) \<le> 255"
    by linarith
  have "\<bar>shl5 h - h + int (of_char c)\<bar> \<le> \<bar>h\<bar> + (2 ^ 31 + 255)"
    unfolding shl5_def using toInt32_range [of "toInt32 h * 2 ^ 5"] _ c
    by (rule hash_step_bound) simp
  then show ?case
    using Cons.IH [of "shl5 h - h + int (of_char c)"] by (simp add: algebra_simps)
qed

lemma stableHash_exact:
  assumes "length s < 2 ^ 22"
  shows "\<bar>stableHash_loop 0 s\<bar> < 2 ^ 53"
proof -
  have "int (length s) * (2 ^ 31 + 255) \<le> (2 ^ 22 - 1) * (2 ^ 31 + 255)"
    using assms by (intro mult_right_mono) simp_all
  then show ?thesis
    using stableHash_loop_bound [of 0 s] by simp
qed



text \<open>The library selector, by contrast, follows the colour scheme.\<close>

lemma getMessageForUser_scheme:
  "getMessageForUser True ''k3x9q1'' \<noteq> getMessageForUser False ''k3x9q1''"
  by (simp add: getMessageForUser_def DARK_MESSAGES_def LIGHT_MESSAGES_def)

section \<open>Calendar arithmetic\<close>

lemma div_bounds:
  fixes x n :: int
  assumes "0 < n"
  shows "n * (x div n) \<le> x" and "x < n * (x div n) + n"
  using assms mult_div_mod_eq [of n x] pos_mod_bound [of n x] pos_mod_sign [of n x]
  by linarith+

lemma div_succ:
  fixes a n :: int
  assumes "0 < n"
  shows "(a + 1) div n = a div n + (if (a + 1) mod n = 0 then 1 else 0)"
proof (cases "(a + 1) mod n = 0")
  case True
  have "a + 1 = n * ((a + 1) div n)"
    using mult_div_mod_eq [of n "a + 1"] True by simp
  then have "a = n * ((a + 1) div n - 1) + (n - 1)"
    by (simp add: algebra_simps)
  then have "a div n = (a + 1) div n - 1"
    using assms by (intro int_div_pos_eq [where r = "n - 1"]) auto
  with True show ?thesis by simp
next
  case False
  have r: "0 < (a + 1) mod n" "(a + 1) mod n < n"
    using False assms pos_mod_sign [of n "a + 1"] pos_mod_bound [of n "a + 1"] by linarith+
  have "a = n * ((a + 1) div n) + ((a + 1) mod n - 1)"
    using mult_div_mod_eq [of n "a + 1"] by linarith
  then have "a div n = (a + 1) div n"
    using r by (intro int_div_pos_eq [where r = "(a + 1) mod n - 1"]) auto
  with False show ?thesis by simp
qed

lemma mod_shift4: "(y - 1968) mod 4 = y mod (4::int)"
  using mod_mult_self2 [of y 4 "- 492"] by simp

lemma mod_shift100: "(y - 1900) mod 100 = y mod (100::int)"
  using mod_mult_self2 [of y 100 "- 19"] by simp

lemma mod_shift400: "(y - 1600) mod 400 = y mod (400::int)"
  using mod_mult_self2 [of y 400 "- 4"] by simp

lemma DayFromYear_Suc: "DayFromYear (y + 1) = DayFromYear y + DaysInYear y"
proof -
  have a: "(y + 1 - 1969) div 4 = (y - 1969) div 4 + (if y mod 4 = 0 then 1 else 0)"
    using div_succ [of 4 "y - 1969"] mod_shift4 [of y] by (simp add: algebra_simps)
  have b: "(y + 1 - 1901) div 100 = (y - 1901) div 100 + (if y mod 100 = 0 then 1 else 0)"
    using div_succ [of 100 "y - 1901"] mod_shift100 [of y] by (simp add: algebra_simps)
  have c: "(y + 1 - 1601) div 400 = (y - 1601) div 400 + (if y mod 400 = 0 then 1 else 0)"
    using div_succ [of 400 "y - 1601"] mod_shift400 [of y] by (simp add: algebra_simps)
  have d: "y mod 100 = 0 \<Longrightarrow> y mod 4 = 0" "y mod 400 = 0 \<Longrightarrow> y mod 100 = 0"
    using mod_mod_cancel [of 4 100 y] mod_mod_cancel [of 100 400 y] by auto
  show ?thesis
    unfolding DayFromYear_def DaysInYear_def a b c using d by auto
qed

lemma DayFromYear_upper_aux:
  fixes a b c y :: int
  assumes "4 * a \<le> y - 1969" and "y - 1901 < 100 * b + 100" and "400 * c \<le> y - 1601"
  shows "400 * (365 * (y - 1970) + a - b + c) \<le> 146097 * (y - 1970) + 593"
  using assms by simp

lemma DayFromYear_lower_aux:
  fixes a b c y :: int
  assumes "y - 1969 < 4 * a + 4" and "100 * b \<le> y - 1901" and "y - 1601 < 400 * c + 400"
  shows "146097 * (y - 1970) - 607 \<le> 400 * (365 * (y - 1970) + a - b + c)"
  using assms by simp

lemma DayFromYear_bounds:
  "400 * DayFromYear y \<le> 146097 * (y - 1970) + 593"
  "146097 * (y - 1970) - 607 \<le> 400 * DayFromYear y"
  unfolding DayFromYear_def
  by (intro DayFromYear_upper_aux DayFromYear_lower_aux div_bounds; simp)+

lemma DayFromYear_less: "y < z \<Longrightarrow> DayFromYear y < DayFromYear z"
  using DayFromYear_bounds [of y] DayFromYear_bounds [of z] by simp

lemma DayFromYear_le: "y \<le> z \<Longrightarrow> DayFromYear y \<le> DayFromYear z"
  using DayFromYear_less [of y z] by (cases "y = z") auto

lemma YearFromDay_bounds:
  "DayFromYear (YearFromDay day) \<le> day \<and> day < DayFromYear (YearFromDay day + 1)"
proof -
  define y where "y = 1970 + (400 * day) div 146097"
  have k: "146097 * (y - 1970) \<le> 400 * day" "400 * day < 146097 * (y - 1970) + 146097"
    using div_bounds [of 146097 "400 * day", simplified] by (simp_all add: y_def)
  have lo: "day < DayFromYear y \<Longrightarrow> DayFromYear (y - 1) \<le> day"
    using k DayFromYear_bounds [of "y - 1"] by simp
  have hi: "DayFromYear (y + 1) \<le> day \<Longrightarrow> day < DayFromYear (y + 1 + 1)"
    using k DayFromYear_bounds [of "y + 1 + 1"] by simp
  show ?thesis
    using lo hi by (auto simp: YearFromDay_def Let_def y_def [symmetric])
qed

lemma YearFromDay_unique:
  assumes "DayFromYear y \<le> day" and "day < DayFromYear (y + 1)"
  shows "YearFromDay day = y"
proof (rule ccontr)
  assume ne: "YearFromDay day \<noteq> y"
  note b = YearFromDay_bounds [of day]
  show False
  proof (cases "YearFromDay day < y")
    case True
    then have "DayFromYear (YearFromDay day + 1) \<le> DayFromYear y"
      by (intro DayFromYear_le) simp
    with b assms show False by linarith
  next
    case False
    with ne have "DayFromYear (y + 1) \<le> DayFromYear (YearFromDay day)"
      by (intro DayFromYear_le) simp
    with b assms show False by linarith
  qed
qed

lemma MonthFromDay_range: "0 \<le> MonthFromDay day \<and> MonthFromDay day \<le> 11"
  by (simp add: MonthFromDay_def Let_def)

lemma MakeDay_fields:
  "MakeDay (YearFromDay day) (MonthFromDay day) (DateFromDay day + n) = day + n"
proof -
  have m: "MonthFromDay day div 12 = 0" "MonthFromDay day mod 12 = MonthFromDay day"
    using MonthFromDay_range [of day] by simp_all
  have l: "(if DaysInYear (YearFromDay day) = 366 then 1 else 0) = InLeapYear day"
    by (simp add: InLeapYear_def)
  have "monthStart (InLeapYear day) (MonthFromDay day) + DateFromDay day - 1 = DayWithinYear day"
    by (simp add: monthStart_def DateFromDay_def MonthFromDay_def Let_def)
  then show ?thesis
    by (simp add: MakeDay_def m l DayWithinYear_def)
qed

lemma DayWithinYear_range: "0 \<le> DayWithinYear day \<and> DayWithinYear day < DaysInYear (YearFromDay day)"
  using YearFromDay_bounds [of day] DayFromYear_Suc [of "YearFromDay day"]
  by (simp add: DayWithinYear_def)

lemma month_cases:
  fixes m :: int
  assumes "0 \<le> m" "m \<le> 11"
  shows "m = 0 \<or> m = 1 \<or> m = 2 \<or> m = 3 \<or> m = 4 \<or> m = 5 \<or> m = 6 \<or> m = 7 \<or> m = 8 \<or> m = 9 \<or> m = 10 \<or> m = 11"
  using assms by arith

lemma fields_MakeDay:
  assumes "0 \<le> m" "m \<le> 11" "1 \<le> d" "d \<le> DaysInMonth y m"
  shows "YearFromDay (MakeDay y m d) = y \<and> MonthFromDay (MakeDay y m d) = m \<and>
         DateFromDay (MakeDay y m d) = d"
proof -
  define l :: int where "l = (if DaysInYear y = 366 then 1 else 0)"
  have lr: "0 \<le> l" "l \<le> 1"
    by (simp_all add: l_def)
  have dy: "DaysInYear y = 365 + l"
    by (simp add: l_def DaysInYear_def)
  have dim: "d \<le> (if m = 1 then 28 + l
                   else if m = 3 \<or> m = 5 \<or> m = 8 \<or> m = 10 then 30 else 31)"
    using assms(4) by (simp add: DaysInMonth_def l_def split: if_splits)
  have md: "MakeDay y m d = DayFromYear y + monthStart l m + d - 1"
    using assms(1,2) by (simp add: MakeDay_def l_def)
  have r: "0 \<le> monthStart l m + d - 1 \<and> monthStart l m + d - 1 < DaysInYear y"
    using month_cases [OF assms(1,2)] assms(3) dim lr
    by (elim disjE; simp add: monthStart_def dy)
  have yr: "YearFromDay (MakeDay y m d) = y"
    using r by (intro YearFromDay_unique) (simp_all add: md DayFromYear_Suc)
  have dw: "DayWithinYear (MakeDay y m d) = monthStart l m + d - 1"
    by (simp add: DayWithinYear_def yr) (simp add: md)
  have il: "InLeapYear (MakeDay y m d) = l"
    by (simp add: InLeapYear_def yr l_def)
  have mo: "MonthFromDay (MakeDay y m d) = m"
    unfolding MonthFromDay_def Let_def dw il
    using month_cases [OF assms(1,2)] assms(3) dim lr
    by (elim disjE; simp add: monthStart_def)
  have da: "DateFromDay (MakeDay y m d) = d"
    unfolding DateFromDay_def Let_def dw il mo
    using month_cases [OF assms(1,2)]
    by (elim disjE; simp add: monthStart_def)
  show ?thesis using yr mo da by simp
qed

lemma InLeapYear_range: "0 \<le> InLeapYear day \<and> InLeapYear day \<le> 1"
  by (simp add: InLeapYear_def)

lemma monthStart_le: "monthStart (InLeapYear day) (MonthFromDay day) \<le> DayWithinYear day"
  using DayWithinYear_range [of day]
  by (simp add: monthStart_def MonthFromDay_def Let_def)

lemma DateFromDay_eq:
  "DateFromDay day = DayWithinYear day - monthStart (InLeapYear day) (MonthFromDay day) + 1"
  by (simp add: monthStart_def DateFromDay_def MonthFromDay_def Let_def)

lemma DateFromDay_pos: "1 \<le> DateFromDay day"
  using monthStart_le [of day] by (simp add: DateFromDay_eq)

lemma DayFromYear_le_iff: "DayFromYear y \<le> day \<longleftrightarrow> y \<le> YearFromDay day"
proof
  assume "DayFromYear y \<le> day"
  then have "DayFromYear y < DayFromYear (YearFromDay day + 1)"
    using YearFromDay_bounds [of day] by simp
  then have "\<not> YearFromDay day + 1 \<le> y"
    using DayFromYear_le [of "YearFromDay day + 1" y] by auto
  then show "y \<le> YearFromDay day" by simp
next
  assume "y \<le> YearFromDay day"
  then show "DayFromYear y \<le> day"
    using DayFromYear_le [of y "YearFromDay day"] YearFromDay_bounds [of day] by simp
qed

section \<open>Date keys\<close>

lemma digit_cases:
  assumes "k < (10::nat)"
  shows "k = 0 \<or> k = 1 \<or> k = 2 \<or> k = 3 \<or> k = 4 \<or> k = 5 \<or> k = 6 \<or> k = 7 \<or> k = 8 \<or> k = 9"
  using assms by arith

lemma digitChar_props:
  assumes "k < 10"
  shows "isDigit (digitChar k)" and "digitValue (digitChar k) = k"
  using digit_cases [OF assms]
  by (elim disjE; simp add: isDigit_def digitChar_def digitValue_def)+

lemma isDigit_cases:
  assumes "isDigit c"
  shows "\<exists>k<10. c = digitChar k"
proof -
  have "c \<in> set ''0123456789''" using assms by (simp add: isDigit_def)
  then obtain k where k: "k < length ''0123456789''" "c = ''0123456789'' ! k"
    by (metis in_set_conv_nth)
  have "k < 10" using k(1) by simp
  then show ?thesis using k(2) unfolding digitChar_def by blast
qed

lemma isDigit_not_dash: "isDigit c \<Longrightarrow> c \<noteq> CHR ''-''"
  by (auto simp: isDigit_def)

lemma digits_no_dash: "list_all isDigit s \<Longrightarrow> CHR ''-'' \<notin> set s"
  using isDigit_not_dash by (auto simp: list_all_iff)

lemma digitsValue_snoc: "digitsValue (s @ [c]) = 10 * digitsValue s + digitValue c"
  by (simp add: digitsValue_def)

lemma String_nat_props:
  "String_nat n \<noteq> [] \<and> list_all isDigit (String_nat n) \<and> digitsValue (String_nat n) = n"
proof (induction n rule: String_nat.induct)
  case (1 n)
  show ?case
  proof (cases "n < 10")
    case True
    then show ?thesis
      by (simp add: String_nat.simps [of n] digitChar_props digitsValue_def)
  next
    case False
    then show ?thesis
      using 1 by (simp add: String_nat.simps [of n] digitChar_props digitsValue_snoc)
  qed
qed

lemma foldl_zeros: "foldl (\<lambda>n c. 10 * n + digitValue c) 0 (replicate k CHR ''0'') = 0"
  by (induction k) (simp_all add: digitValue_def)

lemma padStart2_props:
  assumes "list_all isDigit s"
  shows "list_all isDigit (padStart2 s)" and "digitsValue (padStart2 s) = digitsValue s"
proof -
  have "isDigit CHR ''0''" by (simp add: isDigit_def)
  then have "list_all isDigit (replicate (2 - length s) CHR ''0'')"
    by (simp add: list_all_iff)
  then show "list_all isDigit (padStart2 s)"
    using assms by (simp add: padStart2_def)
  show "digitsValue (padStart2 s) = digitsValue s"
    by (simp add: padStart2_def digitsValue_def foldl_zeros)
qed

lemma split_nonempty: "split sep s \<noteq> []"
  by (induction s) (auto split: list.splits)

lemma split_no_sep: "sep \<notin> set a \<Longrightarrow> split sep a = [a]"
  by (induction a) auto

lemma split_append: "sep \<notin> set a \<Longrightarrow> split sep (a @ sep # rest) = a # split sep rest"
  using split_nonempty [of sep] by (induction a) (auto split: list.splits)

lemma Number_digits: "list_all isDigit s \<Longrightarrow> Number s = Some (int (digitsValue s))"
  by (simp add: Number_def)

lemma split_key:
  assumes "list_all isDigit a" "list_all isDigit b" "list_all isDigit c"
  shows "map Number (split CHR ''-'' (a @ CHR ''-'' # b @ CHR ''-'' # c)) =
           [Some (int (digitsValue a)), Some (int (digitsValue b)), Some (int (digitsValue c))]"
  using assms by (simp add: split_append split_no_sep digits_no_dash Number_digits)

lemma parse_toLocalDateKey:
  assumes "0 \<le> YearFromDay day"
  shows "map Number (split CHR ''-'' (toLocalDateKey day)) =
           [Some (YearFromDay day), Some (MonthFromDay day + 1), Some (DateFromDay day)]"
proof -
  have m: "0 \<le> MonthFromDay day + 1"
    using MonthFromDay_range [of day] by simp
  have d: "0 \<le> DateFromDay day"
    using DateFromDay_pos [of day] by simp
  show ?thesis
    using assms m d
    by (simp add: toLocalDateKey_def Let_def String_int_def split_key String_nat_props
        padStart2_props)
qed

lemma shift_toLocalDateKey:
  assumes "100 \<le> YearFromDay day" "\<bar>day\<bar> \<le> 100000000" "\<bar>day + n\<bar> \<le> 100000000"
  shows "shiftLocalDateKey (toLocalDateKey day) n = Some (toLocalDateKey (day + n))"
proof -
  have p: "map Number (split CHR ''-'' (toLocalDateKey day)) =
           [Some (YearFromDay day), Some (MonthFromDay day + 1), Some (DateFromDay day)]"
    using assms(1) by (intro parse_toLocalDateKey) simp
  have nd: "newDate (YearFromDay day) (MonthFromDay day) (DateFromDay day) = Some day"
    using assms(1,2) MakeDay_fields [of day 0] by (simp add: newDate_def TimeClip_def)
  have sd: "setDate day (DateFromDay day + n) = Some (day + n)"
    using assms(3) by (simp add: setDate_def MakeDay_fields TimeClip_def)
  show ?thesis
    by (simp add: shiftLocalDateKey_def p nd sd)
qed

lemma toLocalDateKey_inj:
  assumes "0 \<le> YearFromDay a" "0 \<le> YearFromDay b" "toLocalDateKey a = toLocalDateKey b"
  shows "a = b"
proof -
  have "[Some (YearFromDay a), Some (MonthFromDay a + 1), Some (DateFromDay a)] =
        [Some (YearFromDay b), Some (MonthFromDay b + 1), Some (DateFromDay b)]"
    using parse_toLocalDateKey [OF assms(1)] parse_toLocalDateKey [OF assms(2)] assms(3) by simp
  then have "MakeDay (YearFromDay a) (MonthFromDay a) (DateFromDay a + 0) =
             MakeDay (YearFromDay b) (MonthFromDay b) (DateFromDay b + 0)"
    by simp
  then have "a + 0 = b + 0"
    by (simp only: MakeDay_fields)
  then show ?thesis by simp
qed

lemma key_decompose:
  assumes "length key = 10" "key ! 4 = CHR ''-''" "key ! 7 = CHR ''-''"
  shows "key = take 4 key @ CHR ''-'' # take 2 (drop 5 key) @ CHR ''-'' # drop 8 key"
proof -
  have a: "drop 4 key = key ! 4 # drop 5 key"
    using assms(1) Cons_nth_drop_Suc [of 4 key] by simp
  have b: "drop 7 key = key ! 7 # drop 8 key"
    using assms(1) Cons_nth_drop_Suc [of 7 key] by simp
  have c: "drop 5 key = take 2 (drop 5 key) @ drop 7 key"
    using append_take_drop_id [of 2 "drop 5 key"] by simp
  have "key = take 4 key @ drop 4 key" by simp
  then show ?thesis using a b c assms(2,3) by metis
qed

lemma digitChar_digitValue: "isDigit c \<Longrightarrow> digitChar (digitValue c) = c"
  using isDigit_cases [of c] digitChar_props(2) by auto

lemma digitValue_less: "isDigit c \<Longrightarrow> digitValue c < 10"
  using isDigit_cases [of c] digitChar_props(2) by auto

lemma digitValue_pos: "isDigit c \<Longrightarrow> c \<noteq> CHR ''0'' \<Longrightarrow> 0 < digitValue c"
  by (auto simp: isDigit_def digitValue_def)

lemma digitsValue_pos:
  "list_all isDigit ds \<Longrightarrow> ds \<noteq> [] \<Longrightarrow> hd ds \<noteq> CHR ''0'' \<Longrightarrow> 0 < digitsValue ds"
proof (induction ds rule: rev_induct)
  case Nil
  then show ?case by simp
next
  case (snoc c xs)
  show ?case
  proof (cases "xs = []")
    case True
    then show ?thesis
      using snoc.prems digitValue_pos [of c] by (simp add: digitsValue_def)
  next
    case False
    then show ?thesis
      using snoc by (simp add: digitsValue_snoc)
  qed
qed

lemma String_nat_digitsValue:
  "list_all isDigit ds \<Longrightarrow> ds \<noteq> [] \<Longrightarrow> hd ds \<noteq> CHR ''0'' \<Longrightarrow> String_nat (digitsValue ds) = ds"
proof (induction ds rule: rev_induct)
  case Nil
  then show ?case by simp
next
  case (snoc c xs)
  have c: "isDigit c" using snoc.prems(1) by simp
  show ?case
  proof (cases "xs = []")
    case True
    then show ?thesis
      using digitValue_less [OF c] digitChar_digitValue [OF c]
      by (simp add: digitsValue_def String_nat.simps [of "digitValue c"])
  next
    case False
    then have ih: "String_nat (digitsValue xs) = xs" and pos: "0 < digitsValue xs"
      using snoc digitsValue_pos [of xs] by simp_all
    have "String_nat (10 * digitsValue xs + digitValue c) =
            String_nat (digitsValue xs) @ [digitChar (digitValue c)]"
      using pos digitValue_less [OF c]
      by (subst String_nat.simps) simp
    then show ?thesis
      using ih digitChar_digitValue [OF c] by (simp add: digitsValue_snoc)
  qed
qed

lemma pad_two_digits:
  assumes "isDigit a" "isDigit b"
  shows "padStart2 (String_nat (digitsValue [a, b])) = [a, b]"
proof (cases "a = CHR ''0''")
  case True
  have "digitsValue [a, b] = digitValue b"
    using True by (simp add: digitsValue_def digitValue_def)
  then show ?thesis
    using True digitValue_less [OF assms(2)] digitChar_digitValue [OF assms(2)]
    by (simp add: String_nat.simps [of "digitValue b"] padStart2_def)
next
  case False
  then have "String_nat (digitsValue [a, b]) = [a, b]"
    using assms by (intro String_nat_digitsValue) simp_all
  then show ?thesis by (simp add: padStart2_def)
qed

lemma four_digits_range:
  assumes "isDigit a" "isDigit b" "isDigit c" "isDigit e" "a \<noteq> CHR ''0''"
  shows "1000 \<le> digitsValue [a, b, c, e] \<and> digitsValue [a, b, c, e] < 10000"
  using digitValue_pos [OF assms(1,5)] digitValue_less [OF assms(1)]
    digitValue_less [OF assms(2)] digitValue_less [OF assms(3)] digitValue_less [OF assms(4)]
  by (simp add: digitsValue_def)

lemma list_of_length4: "length xs = 4 \<Longrightarrow> \<exists>a b c e. xs = [a, b, c, e]"
  by (simp add: numeral_eq_Suc length_Suc_conv) blast

lemma list_of_length2: "length xs = 2 \<Longrightarrow> \<exists>a b. xs = [a, b]"
  by (simp add: numeral_eq_Suc length_Suc_conv) blast

lemma four_digits_leading_zero:
  assumes "isDigit b" "isDigit c" "isDigit e"
  shows "digitsValue [CHR ''0'', b, c, e] < 1000"
  using digitValue_less [OF assms(1)] digitValue_less [OF assms(2)] digitValue_less [OF assms(3)]
  by (simp add: digitsValue_def digitValue_def)

lemma isDateKey_toLocalDateKey:
  assumes "isDateKey key"
  shows "toLocalDateKey (keyDay key) = key \<and> 1000 \<le> YearFromDay (keyDay key) \<and>
         YearFromDay (keyDay key) \<le> 9999"
proof -
  define y where "y = keyYear key"
  define m where "m = keyMonth key"
  define d where "d = keyDate key"
  have len: "length key = 10" and d4: "key ! 4 = CHR ''-''" and d7: "key ! 7 = CHR ''-''"
    and dy: "list_all isDigit (take 4 key)" and dm: "list_all isDigit (take 2 (drop 5 key))"
    and dd: "list_all isDigit (drop 8 key)"
    using assms by (simp_all add: isDateKey_def keyShape_def)
  have rng: "1 \<le> m" "m \<le> 12" "1 \<le> d" "d \<le> DaysInMonth y (m - 1)" and y1000: "1000 \<le> y"
    using assms by (simp_all add: isDateKey_def isCalendarDate_def y_def m_def d_def)
  obtain a b c e where ky: "take 4 key = [a, b, c, e]"
    using list_of_length4 [of "take 4 key"] len by auto
  obtain p q where km: "take 2 (drop 5 key) = [p, q]"
    using list_of_length2 [of "take 2 (drop 5 key)"] len by auto
  obtain r s where kd: "drop 8 key = [r, s]"
    using list_of_length2 [of "drop 8 key"] len by auto
  have a0: "a \<noteq> CHR ''0''"
  proof
    assume "a = CHR ''0''"
    then have "digitsValue (take 4 key) < 1000"
      using four_digits_leading_zero [of b c e] dy ky by simp
    then show False using y1000 by (simp add: y_def keyYear_def)
  qed
  have yr: "1000 \<le> y \<and> y < 10000"
    using four_digits_range [of a b c e] dy a0 by (simp add: y_def keyYear_def ky)
  have sy: "String_nat (nat y) = take 4 key"
    using String_nat_digitsValue [of "[a, b, c, e]"] dy a0 by (simp add: y_def keyYear_def ky)
  have sm: "padStart2 (String_nat (nat m)) = take 2 (drop 5 key)"
    using pad_two_digits [of p q] dm by (simp add: m_def keyMonth_def km)
  have sd: "padStart2 (String_nat (nat d)) = drop 8 key"
    using pad_two_digits [of r s] dd by (simp add: d_def keyDate_def kd)
  have f: "YearFromDay (MakeDay y (m - 1) d) = y \<and> MonthFromDay (MakeDay y (m - 1) d) = m - 1 \<and>
           DateFromDay (MakeDay y (m - 1) d) = d"
    using rng by (intro fields_MakeDay) simp_all
  have kd': "keyDay key = MakeDay y (m - 1) d"
    by (simp add: keyDay_def y_def m_def d_def)
  have "toLocalDateKey (keyDay key) =
          take 4 key @ CHR ''-'' # take 2 (drop 5 key) @ CHR ''-'' # drop 8 key"
    using yr rng sy sm sd by (simp add: toLocalDateKey_def kd' f String_int_def)
  then have "toLocalDateKey (keyDay key) = key"
    using key_decompose [OF len d4 d7] by simp
  then show ?thesis
    using yr f by (simp add: kd')
qed

lemma toLocalDateKey_first_digit:
  assumes "isDateKey (toLocalDateKey day)"
  shows "0 \<le> YearFromDay day"
proof (rule ccontr)
  assume "\<not> 0 \<le> YearFromDay day"
  then have "toLocalDateKey day ! 0 = CHR ''-''"
    by (simp add: toLocalDateKey_def String_int_def)
  moreover have "isDigit (toLocalDateKey day ! 0)"
  proof -
    have "list_all isDigit (take 4 (toLocalDateKey day))" "length (toLocalDateKey day) = 10"
      using assms by (simp_all add: isDateKey_def keyShape_def)
    then show ?thesis
      by (simp add: list_all_length)
  qed
  ultimately show False
    using isDigit_not_dash by auto
qed

lemma isDateKey_day:
  assumes "isDateKey (toLocalDateKey day)"
  shows "keyDay (toLocalDateKey day) = day \<and> 1000 \<le> YearFromDay day \<and> YearFromDay day \<le> 9999"
proof -
  note k = isDateKey_toLocalDateKey [OF assms]
  have "keyDay (toLocalDateKey day) = day"
    using k toLocalDateKey_first_digit [OF assms]
    by (intro toLocalDateKey_inj) simp_all
  then show ?thesis using k by simp
qed

lemma year_day_bounds:
  assumes "100 \<le> YearFromDay day" "YearFromDay day \<le> 10100"
  shows "\<bar>day\<bar> \<le> 100000000"
proof -
  have "DayFromYear 100 \<le> day"
    using assms(1) by (simp add: DayFromYear_le_iff)
  moreover have "day < DayFromYear 10101"
  proof (rule ccontr)
    assume "\<not> day < DayFromYear 10101"
    then have "10101 \<le> YearFromDay day"
      by (simp add: DayFromYear_le_iff [symmetric])
    with assms(2) show False by simp
  qed
  ultimately show ?thesis
    by (simp add: DayFromYear_def)
qed

lemma shifted_year:
  assumes "1000 \<le> YearFromDay day" "YearFromDay day \<le> 9999" "\<bar>n\<bar> \<le> 3650"
  shows "100 \<le> YearFromDay (day + n) \<and> YearFromDay (day + n) \<le> 10100"
proof -
  have lo: "DayFromYear 1000 \<le> day"
    using assms(1) by (simp add: DayFromYear_le_iff)
  have hi: "day < DayFromYear 10000"
  proof (rule ccontr)
    assume "\<not> day < DayFromYear 10000"
    then have "10000 \<le> YearFromDay day"
      by (simp add: DayFromYear_le_iff [symmetric])
    with assms(2) show False by simp
  qed
  have "DayFromYear 100 \<le> day + n"
    using lo assms(3) by (simp add: DayFromYear_def)
  then have a: "100 \<le> YearFromDay (day + n)"
    by (simp add: DayFromYear_le_iff)
  have "day + n < DayFromYear 10101"
    using hi assms(3) by (simp add: DayFromYear_def)
  then have "\<not> DayFromYear 10101 \<le> day + n" by simp
  then have b: "\<not> 10101 \<le> YearFromDay (day + n)"
    by (simp add: DayFromYear_le_iff)
  show ?thesis using a b by simp
qed


lemmas date_eval =
  shiftLocalDateKey_def Number_def isDigit_def digitsValue_def digitValue_def newDate_def
  setDate_def TimeClip_def MakeDay_def DaysInYear_def DayFromYear_def monthStart_def
  DateFromDay_def MonthFromDay_def DayWithinYear_def InLeapYear_def YearFromDay_def
  toLocalDateKey_def String_int_def String_nat.simps padStart2_def digitChar_def Let_def

lemmas key_eval =
  isDateKey_def keyShape_def isCalendarDate_def keyYear_def keyMonth_def keyDate_def
  DaysInMonth_def DaysInYear_def isDigit_def digitsValue_def digitValue_def keyDay_def




text \<open>
  Two more keys of the form \<open>YYYY-MM-DD\<close> that a shift by zero days changes: a year below
  100 is read as a year of the twentieth century, and a day that the month does not have
  rolls over into the next month.
\<close>

lemma shift_two_digit_year: "shiftLocalDateKey ''0050-01-01'' 0 = Some ''1950-01-01''"
  by (simp add: date_eval)

lemma shift_not_a_date:
  "keyShape ''2023-02-29'' \<and> shiftLocalDateKey ''2023-02-29'' 0 = Some ''2023-03-01''"
  by (simp add: date_eval keyShape_def)

section \<open>Streak\<close>

lemma dayIncludes_dom: "dayIncludes ds cursor h \<Longrightarrow> cursor \<in> dom ds"
  by (auto simp: dayIncludes_def split: option.splits)


lemma shift_previous_day:
  assumes "isDateKey (toLocalDateKey day)"
  shows "shiftLocalDateKey (toLocalDateKey day) (- 1) = Some (toLocalDateKey (day - 1))"
proof -
  note k = isDateKey_day [OF assms]
  have "shiftLocalDateKey (toLocalDateKey day) (- 1) = Some (toLocalDateKey (day + - 1))"
    using k shifted_year [of day "- 1"] year_day_bounds [of day] year_day_bounds [of "day + - 1"]
    by (intro shift_toLocalDateKey) simp_all
  then show ?thesis by simp
qed

lemma getStreak_loop_run:
  assumes "\<forall>key\<in>dom ds. isDateKey key"
  shows "(\<forall>i<n. dayIncludes ds (toLocalDateKey (day - int i)) h) \<Longrightarrow>
         \<not> dayIncludes ds (toLocalDateKey (day - int n)) h \<Longrightarrow>
         getStreak_loop h ds streak (toLocalDateKey day) = Some (streak + n)"
proof (induction n arbitrary: day streak)
  case 0
  then show ?case
    by (subst getStreak_loop.simps) simp
next
  case (Suc n)
  have inc: "dayIncludes ds (toLocalDateKey day) h"
    using Suc.prems(1) [rule_format, of 0] by simp
  then have "isDateKey (toLocalDateKey day)"
    using assms dayIncludes_dom by blast
  then have sh: "shiftLocalDateKey (toLocalDateKey day) (- 1) = Some (toLocalDateKey (day - 1))"
    by (rule shift_previous_day)
  have a: "\<forall>i<n. dayIncludes ds (toLocalDateKey (day - 1 - int i)) h"
  proof (intro allI impI)
    fix i assume "i < n"
    then have "dayIncludes ds (toLocalDateKey (day - int (Suc i))) h"
      using Suc.prems(1) [rule_format, of "Suc i"] by simp
    then show "dayIncludes ds (toLocalDateKey (day - 1 - int i)) h"
      by (simp add: algebra_simps)
  qed
  have b: "\<not> dayIncludes ds (toLocalDateKey (day - 1 - int n)) h"
    using Suc.prems(2) by (simp add: algebra_simps)
  have "getStreak_loop h ds (streak + 1) (toLocalDateKey (day - 1)) = Some (streak + 1 + n)"
    using a b by (rule Suc.IH)
  then show ?case
    using inc sh by (subst getStreak_loop.simps) simp
qed








section \<open>Progress\<close>




lemma sigShift_reached: "n < 2 ^ (53 + sigShift n r)"
proof (induction n r rule: sigShift.induct)
  case (1 n r)
  then show ?case
    by (subst sigShift.simps) auto
qed









lemma todayProgress_fields:
  "total (todayProgress k st) = length (activeHabits st) \<and>
   doneCount (todayProgress k st) =
     length (filter (\<lambda>i. list_ex (\<lambda>h. hid h = i) (activeHabits st)) (completedToday k st)) \<and>
   pct (todayProgress k st) =
     (if total (todayProgress k st) = 0 then 0
      else Math_round (fmul (fdiv (doneCount (todayProgress k st)) (total (todayProgress k st))) 100))"
  by (simp add: todayProgress_def Let_def)




text \<open>
  The percentage is computed in double arithmetic. One of two, doubled in doubles, is
  exactly 50; 23 of 40 gives a product just below 57.5, which rounds to 57.
\<close>

lemma percent_half: "Math_round (fmul (fdiv 1 2) 100) = 50"
  by (simp add: Math_round_def fmul_def fdiv_def round53_def roundHalfEven_def normShift.simps
      sigShift.simps Let_def)

lemma percent_tie_down: "Math_round (fmul (fdiv 23 40) 100) = 57"
  by (simp add: Math_round_def fmul_def fdiv_def round53_def roundHalfEven_def normShift.simps
      sigShift.simps Let_def)

section \<open>First run, end to end\<close>

lemma hydrate_added:
  "addHabit ''Hydrate'' c u3 n3 (Some (initial u1 u2 n1 n2)) =
     Some ((initial u1 u2 n1 n2)\<lparr>habits := habits (initial u1 u2 n1 n2) @
        [\<lparr>hid = u3, name = ''Hydrate'', color = c, createdAt = n3, archived = None\<rparr>]\<rparr>)"
  by (simp add: addHabit_def trim_def isWhiteSpace_def initial_def toLowerCase_def lowerChar_def)

lemma hydrate_toggled:
  "toggleToday today u3 (addHabit ''Hydrate'' c u3 n3 (Some (initial u1 u2 n1 n2))) =
     Some \<lparr>userId = u1,
           habits = [\<lparr>hid = u2, name = ''Check-in'', color = ''#22c55e'', createdAt = n1,
                      archived = None\<rparr>,
                     \<lparr>hid = u3, name = ''Hydrate'', color = c, createdAt = n3, archived = None\<rparr>],
           days = [today \<mapsto> [u3]],
           lastSeen = Some n2\<rparr>"
  by (simp only: hydrate_added)
    (simp add: toggleToday_def initial_def dayOrEmpty_def Set_new_def Set_has_def Set_add_def)

lemma hydrate_progress:
  "todayProgress today (toggleToday today u3
      (addHabit ''Hydrate'' c u3 n3 (Some (initial u1 u2 n1 n2)))) =
     \<lparr>total = 2, doneCount = 1, pct = 50\<rparr>"
proof -
  define p where "p = todayProgress today (toggleToday today u3
      (addHabit ''Hydrate'' c u3 n3 (Some (initial u1 u2 n1 n2))))"
  note f = todayProgress_fields [of today "toggleToday today u3
      (addHabit ''Hydrate'' c u3 n3 (Some (initial u1 u2 n1 n2)))", folded p_def]
  have tot: "total p = 2"
    using f by (simp add: hydrate_toggled activeHabits_def)
  have dn: "doneCount p = 1"
    using f by (simp add: hydrate_toggled activeHabits_def completedToday_def dayOrEmpty_def
        Set_new_def Set_add_def)
  have "pct p = Math_round (fmul (fdiv 1 2) 100)"
    using f by (simp only: tot dn) simp
  then have pc: "pct p = 50"
    by (simp only: percent_half)
  have "p = \<lparr>total = 2, doneCount = 1, pct = 50\<rparr>"
    using tot dn pc by (cases p) simp
  then show ?thesis by (simp only: p_def)
qed

lemma hydrate_streak:
  assumes "isDateKey today"
  shows "getStreak u3 [today \<mapsto> [u3]] today = Some 1"
proof -
  note k = isDateKey_toLocalDateKey [OF assms]
  have y: "100 \<le> YearFromDay (keyDay today + - 1)"
    using k shifted_year [of "keyDay today" "- 1"] by simp
  have ne: "toLocalDateKey (keyDay today - 1) \<noteq> today"
  proof
    assume "toLocalDateKey (keyDay today - 1) = today"
    then have "toLocalDateKey (keyDay today - 1) = toLocalDateKey (keyDay today)"
      using k by simp
    then have "keyDay today - 1 = keyDay today"
      using k y by (intro toLocalDateKey_inj) simp_all
    then show False by simp
  qed
  have d: "\<forall>key\<in>dom [today \<mapsto> [u3]]. isDateKey key"
    using assms by simp
  have r: "\<forall>i<1. dayIncludes [today \<mapsto> [u3]] (toLocalDateKey (keyDay today - int i)) u3"
    using k by (simp add: dayIncludes_def)
  have g: "\<not> dayIncludes [today \<mapsto> [u3]] (toLocalDateKey (keyDay today - int 1)) u3"
    using ne by (simp add: dayIncludes_def)
  have "getStreak_loop u3 [today \<mapsto> [u3]] 0 (toLocalDateKey (keyDay today)) = Some (0 + 1)"
    using d r g by (rule getStreak_loop_run)
  then show ?thesis
    using k by (simp add: getStreak_def)
qed

text \<open>
  Claim C9, as amended. Start from the first-run state, whose only habit is the default
  habit \<open>Check-in\<close>; add the habit \<open>Hydrate\<close> and toggle it for today's date key. Then
  \<open>todayProgress\<close> is \<open>{total: 2, done: 1, pct: 50}\<close>, since the default habit counts too,
  and the streak of the new habit is 1.
\<close>

theorem first_run_progress:
  assumes "isDateKey today"
  shows "\<exists>s1 s2. addHabit ''Hydrate'' c u3 n3 (Some (initial u1 u2 n1 n2)) = Some s1 \<and>
           toggleToday today u3 (Some s1) = Some s2 \<and>
           todayProgress today (Some s2) = \<lparr>total = 2, doneCount = 1, pct = 50\<rparr> \<and>
           streakFor today (Some s2) u3 = Some 1"
proof -
  obtain s1 where s1: "addHabit ''Hydrate'' c u3 n3 (Some (initial u1 u2 n1 n2)) = Some s1"
    using hydrate_added by blast
  obtain s2 where s2: "toggleToday today u3 (Some s1) = Some s2"
    using toggleToday_Some by blast
  have t: "toggleToday today u3 (addHabit ''Hydrate'' c u3 n3 (Some (initial u1 u2 n1 n2))) = Some s2"
    using s1 s2 by simp
  have p: "todayProgress today (Some s2) = \<lparr>total = 2, doneCount = 1, pct = 50\<rparr>"
    using hydrate_progress [of today u3 c n3 u1 u2 n1 n2] by (simp only: t)
  have "days s2 = [today \<mapsto> [u3]]"
    using t [symmetric] by (simp only: hydrate_toggled option.inject) simp
  then have "streakFor today (Some s2) u3 = Some 1"
    using hydrate_streak [OF assms, of u3] by (simp add: streakFor_def)
  then show ?thesis
    using s1 s2 p by blast
qed

theorem first_run_progress_witness:
  "isDateKey ''2024-01-05'' \<and>
   todayProgress ''2024-01-05'' (toggleToday ''2024-01-05'' ''h-2''
      (addHabit ''Hydrate'' ''#3b82f6'' ''h-2'' ''2024-01-05T09:00:00.000Z''
         (Some (initial ''u-1'' ''h-1'' ''2024-01-05T08:00:00.000Z'' ''2024-01-05T08:00:00.001Z''))))
     = \<lparr>total = 2, doneCount = 1, pct = 50\<rparr> \<and>
   streakFor ''2024-01-05'' (toggleToday ''2024-01-05'' ''h-2''
      (addHabit ''Hydrate'' ''#3b82f6'' ''h-2'' ''2024-01-05T09:00:00.000Z''
         (Some (initial ''u-1'' ''h-1'' ''2024-01-05T08:00:00.000Z'' ''2024-01-05T08:00:00.001Z''))))
      ''h-2'' = Some 1"
proof -
  have k: "isDateKey ''2024-01-05''"
    by (simp add: key_eval)
  obtain s1 s2 where
    "addHabit ''Hydrate'' ''#3b82f6'' ''h-2'' ''2024-01-05T09:00:00.000Z''
       (Some (initial ''u-1'' ''h-1'' ''2024-01-05T08:00:00.000Z'' ''2024-01-05T08:00:00.001Z''))
       = Some s1"
    "toggleToday ''2024-01-05'' ''h-2'' (Some s1) = Some s2"
    "todayProgress ''2024-01-05'' (Some s2) = \<lparr>total = 2, doneCount = 1, pct = 50\<rparr>"
    "streakFor ''2024-01-05'' (Some s2) ''h-2'' = Some 1"
    using first_run_progress [OF k] by blast
  then show ?thesis
    using k by simp
qed

theorem first_run_progress_counterexample:
  "todayProgress ''2024-01-05'' (toggleToday ''2024-01-05'' ''h-2''
      (addHabit ''Hydrate'' ''#3b82f6'' ''h-2'' ''2024-01-05T09:00:00.000Z''
         (Some (initial ''u-1'' ''h-1'' ''2024-01-05T08:00:00.000Z'' ''2024-01-05T08:00:00.001Z''))))
     \<noteq> \<lparr>total = 1, doneCount = 1, pct = 100\<rparr>"
  by (simp add: hydrate_progress)

text \<open>
  The numbers \<open>{total: 1, done: 1, pct: 100}\<close> belong to the other start state, the one
  without habits that the page falls back to when the stored text cannot be parsed.
\<close>

lemma percent_full: "Math_round (fmul (fdiv 1 1) 100) = 100"
  by (simp add: Math_round_def fmul_def fdiv_def round53_def roundHalfEven_def normShift.simps
      sigShift.simps Let_def)

lemma fallback_toggled:
  "toggleToday today u3 (addHabit ''Hydrate'' c u3 n3 (Some (fallback u1 n1))) =
     Some \<lparr>userId = u1,
           habits = [\<lparr>hid = u3, name = ''Hydrate'', color = c, createdAt = n3, archived = None\<rparr>],
           days = [today \<mapsto> [u3]],
           lastSeen = Some n1\<rparr>"
  by (simp add: addHabit_def trim_def isWhiteSpace_def fallback_def toLowerCase_def lowerChar_def
      toggleToday_def dayOrEmpty_def Set_new_def Set_has_def Set_add_def)

lemma fallback_progress:
  "todayProgress today (toggleToday today u3 (addHabit ''Hydrate'' c u3 n3 (Some (fallback u1 n1)))) =
     \<lparr>total = 1, doneCount = 1, pct = 100\<rparr>"
proof -
  define p where "p = todayProgress today (toggleToday today u3
      (addHabit ''Hydrate'' c u3 n3 (Some (fallback u1 n1))))"
  note f = todayProgress_fields [of today "toggleToday today u3
      (addHabit ''Hydrate'' c u3 n3 (Some (fallback u1 n1)))", folded p_def]
  have tot: "total p = 1"
    using f by (simp add: fallback_toggled activeHabits_def)
  have dn: "doneCount p = 1"
    using f by (simp add: fallback_toggled activeHabits_def completedToday_def dayOrEmpty_def
        Set_new_def Set_add_def)
  have "pct p = (if total p = 0 then 0
                 else Math_round (fmul (fdiv (doneCount p) (total p)) 100))"
    using f by blast
  then have "pct p = Math_round (fmul (fdiv 1 1) 100)"
    by (simp only: tot dn one_neq_zero if_False)
  then have pc: "pct p = 100"
    by (simp only: percent_full)
  have "p = \<lparr>total = 1, doneCount = 1, pct = 100\<rparr>"
    using tot dn pc by (cases p) simp
  then show ?thesis by (simp only: p_def)
qed

end
